theory Spec2Isabelle
  imports Main
begin

section \<open>doodad.launch.launch_api: a shallow embedding\<close>

text \<open>
  The module \<^verbatim>\<open>launch_api.py\<close> packages a shell command into one archive and hands the
  archive to a launch mode. Its collaborators (the archive builder, the launch mode, the
  mount type) live in other modules; they are parameters of the model. Every call of a
  collaborator is written into a call log together with what it returned, so that "how
  often" and "in which order" are statements about that log.
\<close>

subsection \<open>Python values, errors\<close>

text \<open>
  \<^verbatim>\<open>cli_args\<close> is documented as a string (or \<^verbatim>\<open>None\<close>) for \<^verbatim>\<open>run_command\<close> and as a
  sequence of such entries for \<^verbatim>\<open>run_commands\<close>; \<^verbatim>\<open>run_python\<close> forwards one and the same
  keyword to either. The values are therefore kept dynamically typed.
\<close>

datatype py_val = PyNone | PyStr string | PySeq "py_val list"

text \<open>
  \<open>Raised e\<close> is an exception \<open>e\<close> that a collaborator raised; the other two are raised by
  the Python operators the module itself applies.
\<close>

datatype 'e error = Raised 'e | TypeError | ValueError

text \<open>Truth value testing, as in \<^verbatim>\<open>if cli_args:\<close>.\<close>

fun truthy :: "py_val \<Rightarrow> bool" where
  "truthy PyNone = False"
| "truthy (PyStr s) = (s \<noteq> [])"
| "truthy (PySeq xs) = (xs \<noteq> [])"

text \<open>\<^verbatim>\<open>a + v\<close> for a string \<open>a\<close>: only a string can be concatenated to a string.\<close>

fun str_add :: "string \<Rightarrow> py_val \<Rightarrow> 'e error + string" where
  "str_add a (PyStr s) = Inr (a @ s)"
| "str_add a PyNone = Inl TypeError"
| "str_add a (PySeq xs) = Inl TypeError"

text \<open>
  The items \<^verbatim>\<open>for cli_arg in cli_args\<close> visits: the elements of a sequence, the
  characters of a string; \<^verbatim>\<open>None\<close> is not iterable.
\<close>

fun py_iter :: "py_val \<Rightarrow> 'e error + py_val list" where
  "py_iter PyNone = Inl TypeError"
| "py_iter (PyStr s) = Inr (map (\<lambda>c. PyStr [c]) s)"
| "py_iter (PySeq xs) = Inr xs"

text \<open>The documented argument types, embedded into the values.\<close>

fun entry :: "string option \<Rightarrow> py_val" where
  "entry None = PyNone"
| "entry (Some s) = PyStr s"

text \<open>
  \<^verbatim>\<open>fmt % args\<close> for a format string whose only directive is \<^verbatim>\<open>%s\<close> and a tuple of
  strings. Too few or too many arguments raise \<^verbatim>\<open>TypeError\<close>; a \<^verbatim>\<open>%\<close> that ends the format
  or is followed by another character is outside what is modelled here and reported as
  \<^verbatim>\<open>ValueError\<close>.
\<close>

fun py_format :: "string \<Rightarrow> string list \<Rightarrow> 'e error + string" where
  "py_format [] args = (if args = [] then Inr [] else Inl TypeError)"
| "py_format (c # fmt) args =
     (if c = CHR ''%'' then
        (case fmt of
           [] \<Rightarrow> Inl ValueError
         | d # fmt' \<Rightarrow>
             if d = CHR ''s'' then
               (case args of
                  [] \<Rightarrow> Inl TypeError
                | a # args' \<Rightarrow>
                    (case py_format fmt' args' of Inl e \<Rightarrow> Inl e | Inr r \<Rightarrow> Inr (a @ r)))
             else Inl ValueError)
      else (case py_format fmt args of Inl e \<Rightarrow> Inl e | Inr r \<Rightarrow> Inr (c # r)))"

subsection \<open>os.path (POSIX)\<close>

text \<open>
  The three functions of Python's \<^verbatim>\<open>posixpath\<close> that \<^verbatim>\<open>run_python\<close> calls, on strings.
  \<open>rfind_sep_succ p\<close> is \<^verbatim>\<open>p.rfind('/') + 1\<close>: the index after the last separator, \<open>0\<close>
  when there is none.
\<close>

definition rfind_sep_succ :: "string \<Rightarrow> nat" where
  "rfind_sep_succ p = length p - length (takeWhile (\<lambda>c. c \<noteq> CHR ''/'') (rev p))"

definition rstrip_sep :: "string \<Rightarrow> string" where
  "rstrip_sep s = rev (dropWhile (\<lambda>c. c = CHR ''/'') (rev s))"

definition basename :: "string \<Rightarrow> string" where
  "basename p = drop (rfind_sep_succ p) p"

definition dirname :: "string \<Rightarrow> string" where
  "dirname p =
     (let head = take (rfind_sep_succ p) p
      in if head \<noteq> [] \<and> head \<noteq> replicate (length head) (CHR ''/'')
         then rstrip_sep head else head)"

definition join :: "string \<Rightarrow> string \<Rightarrow> string" where
  "join a b =
     (if take 1 b = ''/'' then b
      else if a = [] \<or> last a = CHR ''/'' then a @ b
      else a @ ''/'' @ b)"

subsection \<open>Mounts, the world, the call log\<close>

text \<open>
  Modelled from the spec: \<^verbatim>\<open>mount.MountLocal\<close> is not part of the sources at hand. The spec
  describes a mount as one binding of a local directory to a path visible to the archive,
  with the attributes \<open>local_dir\<close> and \<open>mount_point\<close>; the constructor stores both.
\<close>

record mount =
  local_dir :: string
  mount_point :: string

definition MountLocal :: "string \<Rightarrow> string \<Rightarrow> mount" where
  "MountLocal ld mp = \<lparr>local_dir = ld, mount_point = mp\<rparr>"

text \<open>
  What the collaborators can read and change: the paths that exist on the file system, the
  list objects holding mounts (a reference is an index into \<open>heap\<close>), and a state \<open>ext\<close> of
  their own.
\<close>

record 's world =
  files :: "string set"
  heap :: "mount list list"
  ext :: 's

text \<open>
  One entry per collaborator call, in the order of the calls, with the arguments passed and
  the outcome (\<open>Inl\<close> an exception, \<open>Inr\<close> the value returned).
\<close>

datatype 'e call =
    TempEnter string
  | BuildArchive string string bool string nat "'e + string"
  | RunScript string bool bool "'e + string option"
  | TempExit string

record ('s, 'e) state =
  calls :: "'e call list"
  world :: "'s world"

text \<open>
  A launch mode is its method \<^verbatim>\<open>run_script(cmd, return_output, verbose)\<close>: it may fail, and
  it returns the captured output or \<^verbatim>\<open>None\<close>.
\<close>

type_synonym ('s, 'e) launch_mode =
  "string \<Rightarrow> bool \<Rightarrow> bool \<Rightarrow> 's world \<Rightarrow> ('e + string option) \<times> 's world"

text \<open>
  The modules \<^verbatim>\<open>launch_api\<close> imports. \<open>temp_archive_file\<close> is what entering the context
  manager does (it yields the path of the archive file); \<open>build_archive\<close> takes
  \<^verbatim>\<open>archive_filename, payload_script, verbose, docker_image, mounts\<close> and returns the
  archive's path or fails; \<open>strip_stdout\<close> is \<^verbatim>\<open>archive_builder._strip_stdout\<close>;
  \<open>LocalMode\<close> is the instance \<^verbatim>\<open>launch_mode.LocalMode()\<close> bound as the default mode.
\<close>

record ('s, 'e) modules =
  temp_archive_file :: "'s world \<Rightarrow> string \<times> 's world"
  build_archive ::
    "string \<Rightarrow> string \<Rightarrow> bool \<Rightarrow> string \<Rightarrow> nat \<Rightarrow> 's world \<Rightarrow> ('e + string) \<times> 's world"
  strip_stdout :: "string option \<Rightarrow> string option"
  LocalMode :: "('s, 'e) launch_mode"

definition call_build_archive ::
  "('s, 'e) modules \<Rightarrow> string \<Rightarrow> string \<Rightarrow> bool \<Rightarrow> string \<Rightarrow> nat \<Rightarrow> ('s, 'e) state
     \<Rightarrow> ('e + string) \<times> ('s, 'e) state" where
  "call_build_archive md archive_filename payload_script verbose docker_image mounts st =
     (let (out, w) =
            build_archive md archive_filename payload_script verbose docker_image mounts (world st)
      in (out, \<lparr>calls = calls st @
                   [BuildArchive archive_filename payload_script verbose docker_image mounts out],
                world = w\<rparr>))"

definition call_run_script ::
  "('s, 'e) launch_mode \<Rightarrow> string \<Rightarrow> bool \<Rightarrow> bool \<Rightarrow> ('s, 'e) state
     \<Rightarrow> ('e + string option) \<times> ('s, 'e) state" where
  "call_run_script mode cmd return_output verbose st =
     (let (out, w) = mode cmd return_output verbose (world st)
      in (out, \<lparr>calls = calls st @ [RunScript cmd return_output verbose out], world = w\<rparr>))"

text \<open>
  Modelled from the spec: the context manager \<^verbatim>\<open>archive_builder.temp_archive_file\<close> is not
  part of the sources at hand. By the spec it yields a file system path for the duration of
  a scoped block and deletes any file at that path when the scope exits, however it exits.
  \<open>with_temp_archive_file\<close> is the \<^verbatim>\<open>with\<close> statement: the exit runs after the body, whether
  the body returned or raised, and the body's outcome is passed on.
\<close>

definition enter_temp_archive_file ::
  "('s, 'e) modules \<Rightarrow> ('s, 'e) state \<Rightarrow> string \<times> ('s, 'e) state" where
  "enter_temp_archive_file md st =
     (let (archive_file, w) = temp_archive_file md (world st)
      in (archive_file, \<lparr>calls = calls st @ [TempEnter archive_file], world = w\<rparr>))"

definition exit_temp_archive_file :: "string \<Rightarrow> ('s, 'e) state \<Rightarrow> ('s, 'e) state" where
  "exit_temp_archive_file archive_file st =
     \<lparr>calls = calls st @ [TempExit archive_file],
      world = (world st)\<lparr>files := files (world st) - {archive_file}\<rparr>\<rparr>"

definition with_temp_archive_file ::
  "('s, 'e) modules \<Rightarrow> (string \<Rightarrow> ('s, 'e) state \<Rightarrow> 'a \<times> ('s, 'e) state) \<Rightarrow> ('s, 'e) state
     \<Rightarrow> 'a \<times> ('s, 'e) state" where
  "with_temp_archive_file md body st =
     (let (archive_file, st1) = enter_temp_archive_file md st;
          (r, st2) = body archive_file st1
      in (r, exit_temp_archive_file archive_file st2))"

subsection \<open>run_command\<close>

definition run_command ::
  "('s, 'e) modules \<Rightarrow> string \<Rightarrow> py_val \<Rightarrow> ('s, 'e) launch_mode \<Rightarrow> nat \<Rightarrow> bool \<Rightarrow> bool \<Rightarrow> string
     \<Rightarrow> ('s, 'e) state \<Rightarrow> ('e error + string option) \<times> ('s, 'e) state" where
  "run_command md command cli_args mode mounts return_output verbose docker_image st =
     (let (r, st') =
            with_temp_archive_file md
              (\<lambda>archive_file st1.
                 case call_build_archive md archive_file command False docker_image mounts st1 of
                   (Inl e, st2) \<Rightarrow> (Inl (Raised e), st2)
                 | (Inr archive, st2) \<Rightarrow>
                     (case (if truthy cli_args then str_add (archive @ '' -- '') cli_args
                            else Inr archive) of
                        Inl e \<Rightarrow> (Inl e, st2)
                      | Inr cmd \<Rightarrow>
                          (case call_run_script mode cmd return_output verbose st2 of
                             (Inl e, st3) \<Rightarrow> (Inl (Raised e), st3)
                           | (Inr result, st3) \<Rightarrow> (Inr result, st3))))
              st
      in case r of
           Inl e \<Rightarrow> (Inl e, st')
         | Inr result \<Rightarrow>
             (Inr (if return_output then strip_stdout md result else result), st'))"

subsection \<open>run_commands\<close>

text \<open>
  The \<^verbatim>\<open>for\<close> loop over the entries. \<open>cmd\<close> is the loop-carried variable of the same name
  and \<open>results\<close> the list being appended to; the first failure leaves the loop.
\<close>

fun for_cli_arg ::
  "('s, 'e) launch_mode \<Rightarrow> string \<Rightarrow> bool \<Rightarrow> bool \<Rightarrow> py_val list \<Rightarrow> string \<Rightarrow> string option list
     \<Rightarrow> ('s, 'e) state \<Rightarrow> ('e error + string option list) \<times> ('s, 'e) state" where
  "for_cli_arg mode archive return_output verbose [] cmd results st = (Inr results, st)"
| "for_cli_arg mode archive return_output verbose (cli_arg # rest) cmd results st =
     (case (if truthy cli_arg then str_add (archive @ '' -- '') cli_arg else Inr cmd) of
        Inl e \<Rightarrow> (Inl e, st)
      | Inr cmd' \<Rightarrow>
          (case call_run_script mode cmd' return_output verbose st of
             (Inl e, st') \<Rightarrow> (Inl (Raised e), st')
           | (Inr result, st') \<Rightarrow>
               for_cli_arg mode archive return_output verbose rest cmd' (results @ [result]) st'))"

definition run_commands ::
  "('s, 'e) modules \<Rightarrow> string \<Rightarrow> py_val \<Rightarrow> ('s, 'e) launch_mode \<Rightarrow> nat \<Rightarrow> bool \<Rightarrow> bool \<Rightarrow> string
     \<Rightarrow> ('s, 'e) state \<Rightarrow> ('e error + string option list) \<times> ('s, 'e) state" where
  "run_commands md command cli_args mode mounts return_output verbose docker_image st =
     (let (r, st') =
            with_temp_archive_file md
              (\<lambda>archive_file st1.
                 case call_build_archive md archive_file command False docker_image mounts st1 of
                   (Inl e, st2) \<Rightarrow> (Inl (Raised e), st2)
                 | (Inr archive, st2) \<Rightarrow>
                     (case py_iter cli_args of
                        Inl e \<Rightarrow> (Inl e, st2)
                      | Inr entries \<Rightarrow>
                          for_cli_arg mode archive return_output verbose entries archive [] st2))
              st
      in case r of
           Inl e \<Rightarrow> (Inl e, st')
         | Inr results \<Rightarrow>
             (Inr (if return_output then map (strip_stdout md) results else results), st'))"

subsection \<open>run_python, make_python_command\<close>

definition make_python_command :: "string \<Rightarrow> string \<Rightarrow> 'e error + string" where
  "make_python_command target python_cmd = py_format ''%s %s'' [python_cmd, target]"

text \<open>
  \<^verbatim>\<open>**kwargs\<close>: the keywords a caller may forward, each present or absent. An absent keyword
  takes the default of the function called: \<^verbatim>\<open>cli_args=None\<close> in \<^verbatim>\<open>run_command\<close>,
  \<^verbatim>\<open>cli_args=(None,)\<close> in \<^verbatim>\<open>run_commands\<close>, and in both \<^verbatim>\<open>mode=launch_mode.LocalMode()\<close>,
  \<^verbatim>\<open>return_output=False\<close>, \<^verbatim>\<open>verbose=False\<close>.
\<close>

record ('s, 'e) kwargs =
  kw_cli_args :: "py_val option"
  kw_mode :: "('s, 'e) launch_mode option"
  kw_return_output :: "bool option"
  kw_verbose :: "bool option"

text \<open>What \<^verbatim>\<open>run_python\<close> returns: the one output of \<^verbatim>\<open>run_command\<close> or the list of \<^verbatim>\<open>run_commands\<close>.\<close>

datatype returned = Output "string option" | Outputs "string option list"

text \<open>
  \<open>list_of w r\<close> reads the list object a reference denotes (every reference a Python program
  holds denotes an object; an index outside the heap denotes none and reads as empty).
  \<open>new_list\<close> creates a list object and returns the reference to it.
\<close>

definition list_of :: "'s world \<Rightarrow> nat \<Rightarrow> mount list" where
  "list_of w r = (if r < length (heap w) then heap w ! r else [])"

definition new_list :: "mount list \<Rightarrow> ('s, 'e) state \<Rightarrow> nat \<times> ('s, 'e) state" where
  "new_list xs st =
     (length (heap (world st)),
      \<lparr>calls = calls st, world = (world st)\<lparr>heap := heap (world st) @ [xs]\<rparr>\<rparr>)"

text \<open>
  \<^verbatim>\<open>mounts = list(mounts) + [target_mount]\<close> rebinds the local name to a list object created
  by \<^verbatim>\<open>+\<close>; the object the caller passed is only read.
\<close>

definition run_python ::
  "('s, 'e) modules \<Rightarrow> string \<Rightarrow> string \<Rightarrow> nat \<Rightarrow> string \<Rightarrow> bool \<Rightarrow> ('s, 'e) kwargs
     \<Rightarrow> ('s, 'e) state \<Rightarrow> ('e error + returned) \<times> ('s, 'e) state" where
  "run_python md target target_mount_dir mounts docker_image run_multiple kw st =
     (let target_dir = dirname target;
          target_mount_dir' = join target_mount_dir (basename target_dir);
          target_mount = MountLocal target_dir target_mount_dir';
          (mounts', st1) = new_list (list_of (world st) mounts @ [target_mount]) st;
          target_full_path = join (mount_point target_mount) (basename target);
          mode = (case kw_mode kw of None \<Rightarrow> LocalMode md | Some m \<Rightarrow> m);
          return_output = (case kw_return_output kw of None \<Rightarrow> False | Some b \<Rightarrow> b);
          verbose = (case kw_verbose kw of None \<Rightarrow> False | Some b \<Rightarrow> b)
      in case make_python_command target_full_path ''python'' of
           Inl e \<Rightarrow> (Inl e, st1)
         | Inr command \<Rightarrow>
             if run_multiple then
               (case run_commands md command
                       (case kw_cli_args kw of None \<Rightarrow> PySeq [PyNone] | Some v \<Rightarrow> v)
                       mode mounts' return_output verbose docker_image st1 of
                  (Inl e, st') \<Rightarrow> (Inl e, st')
                | (Inr results, st') \<Rightarrow> (Inr (Outputs results), st'))
             else
               (case run_command md command
                       (case kw_cli_args kw of None \<Rightarrow> PyNone | Some v \<Rightarrow> v)
                       mode mounts' return_output verbose docker_image st1 of
                  (Inl e, st') \<Rightarrow> (Inl e, st')
                | (Inr result, st') \<Rightarrow> (Inr (Output result), st')))"

subsection \<open>Reading the call log\<close>

text \<open>
  The calls a run added to the log, and projections of a log: the command lines handed to
  \<^verbatim>\<open>run_script\<close>, the outputs it returned, the calls of each kind.
\<close>

definition new_calls :: "('s, 'e) state \<Rightarrow> ('s, 'e) state \<Rightarrow> 'e call list" where
  "new_calls st st' = drop (length (calls st)) (calls st')"

fun is_build_archive :: "'e call \<Rightarrow> bool" where
  "is_build_archive (BuildArchive a p vb i m out) = True"
| "is_build_archive (TempEnter a) = False"
| "is_build_archive (RunScript c ro v out) = False"
| "is_build_archive (TempExit a) = False"

fun is_run_script :: "'e call \<Rightarrow> bool" where
  "is_run_script (RunScript c ro v out) = True"
| "is_run_script (TempEnter a) = False"
| "is_run_script (BuildArchive a p vb i m out) = False"
| "is_run_script (TempExit a) = False"

fun is_failed_run :: "'e call \<Rightarrow> bool" where
  "is_failed_run (RunScript c ro v (Inl e)) = True"
| "is_failed_run (RunScript c ro v (Inr r)) = False"
| "is_failed_run (TempEnter a) = False"
| "is_failed_run (BuildArchive a p vb i m out) = False"
| "is_failed_run (TempExit a) = False"

fun run_script_cmds :: "'e call list \<Rightarrow> string list" where
  "run_script_cmds [] = []"
| "run_script_cmds (RunScript c ro v out # cs) = c # run_script_cmds cs"
| "run_script_cmds (TempEnter a # cs) = run_script_cmds cs"
| "run_script_cmds (BuildArchive a p vb i m out # cs) = run_script_cmds cs"
| "run_script_cmds (TempExit a # cs) = run_script_cmds cs"

fun run_script_outputs :: "'e call list \<Rightarrow> string option list" where
  "run_script_outputs [] = []"
| "run_script_outputs (RunScript c ro v (Inr r) # cs) = r # run_script_outputs cs"
| "run_script_outputs (RunScript c ro v (Inl e) # cs) = run_script_outputs cs"
| "run_script_outputs (TempEnter a # cs) = run_script_outputs cs"
| "run_script_outputs (BuildArchive a p vb i m out # cs) = run_script_outputs cs"
| "run_script_outputs (TempExit a # cs) = run_script_outputs cs"

text \<open>The log entries of dispatching the command lines \<open>cmds\<close> with the outcomes \<open>outs\<close>.\<close>

definition logged ::
  "bool \<Rightarrow> bool \<Rightarrow> string list \<Rightarrow> ('e + string option) list \<Rightarrow> 'e call list" where
  "logged ro v cmds outs = map (\<lambda>(c, out). RunScript c ro v out) (zip cmds outs)"

subsection \<open>The composition rule as the specification words it\<close>

text \<open>
  The specification's rule for a batch, written on its own: an entry holding a non-empty
  argument string forms the archive path, \<^verbatim>\<open>" -- "\<close> and the entry; an empty or absent entry
  reuses whatever command line was most recently formed (\<open>recent\<close>). It is compared with what
  \<open>run_commands\<close> dispatches.
\<close>

fun spec_command_lines :: "string \<Rightarrow> string \<Rightarrow> string option list \<Rightarrow> string list" where
  "spec_command_lines archive recent [] = []"
| "spec_command_lines archive recent (a # as) =
     (let line = (case a of
                    None \<Rightarrow> recent
                  | Some s \<Rightarrow> if s \<noteq> [] then archive @ '' -- '' @ s else recent)
      in line # spec_command_lines archive line as)"

subsection \<open>Collaborators that leave other list objects alone\<close>

text \<open>
  \<open>keeps_lists except w w'\<close>: from \<open>w\<close> to \<open>w'\<close> no list object disappeared and none changed
  but those referenced in \<open>except\<close>. A collaborator is \<open>confined\<close> when it changes no list
  object other than one it was passed: the builder may change the mounts list it receives,
  the context manager and the launch mode receive none.
\<close>

definition keeps_lists :: "nat set \<Rightarrow> 's world \<Rightarrow> 's world \<Rightarrow> bool" where
  "keeps_lists except w w' =
     (length (heap w) \<le> length (heap w') \<and>
      (\<forall>r < length (heap w). r \<notin> except \<longrightarrow> heap w' ! r = heap w ! r))"

definition confined_mode :: "('s, 'e) launch_mode \<Rightarrow> bool" where
  "confined_mode mode = (\<forall>cmd ro v w. keeps_lists {} w (snd (mode cmd ro v w)))"

definition confined_builder :: "('s, 'e) modules \<Rightarrow> bool" where
  "confined_builder md =
     ((\<forall>w. keeps_lists {} w (snd (temp_archive_file md w))) \<and>
      (\<forall>a p vb i m w. keeps_lists {m} w (snd (build_archive md a p vb i m w))))"

subsection \<open>A concrete builder and launch mode\<close>

text \<open>
  Collaborators to run the functions on: the context manager yields one fixed path and
  creates the file; the builder refuses an empty payload, otherwise returns the archive
  path and empties the mounts list it was passed; the launch mode fails on one command line
  and otherwise returns the command line followed by framing, which \<open>strip_stdout\<close> cuts.
\<close>

definition demo_mode :: "(nat, string) launch_mode" where
  "demo_mode cmd return_output verbose w =
     (if cmd = ''/tmp/a.dar -- fail'' then (Inl ''exit status 1'', w)
      else (Inr (if return_output then Some (cmd @ ''#end'') else None),
            w\<lparr>ext := Suc (ext w)\<rparr>))"

definition demo_modules :: "(nat, string) modules" where
  "demo_modules =
     \<lparr>temp_archive_file = (\<lambda>w. (''/tmp/a.dar'', w\<lparr>files := insert ''/tmp/a.dar'' (files w)\<rparr>)),
      build_archive =
        (\<lambda>archive_filename payload_script verbose docker_image mounts w.
           if payload_script = [] then (Inl ''no payload'', w)
           else (Inr archive_filename, w\<lparr>heap := (heap w)[mounts := []]\<rparr>)),
      strip_stdout = map_option (takeWhile (\<lambda>c. c \<noteq> CHR ''#'')),
      LocalMode = demo_mode\<rparr>"

definition demo_state :: "(nat, string) state" where
  "demo_state =
     \<lparr>calls = [],
      world = \<lparr>files = {}, heap = [[\<lparr>local_dir = ''/data'', mount_point = ''data''\<rparr>]], ext = 0\<rparr>\<rparr>"

definition demo_kwargs :: "(nat, string) kwargs" where
  "demo_kwargs =
     \<lparr>kw_cli_args = None, kw_mode = Some demo_mode, kw_return_output = Some True,
      kw_verbose = None\<rparr>"

text \<open>Runs on these collaborators: a batch that is dispatched to its end, and one that fails.\<close>

definition demo_batch :: "string option list" where
  "demo_batch = [None, Some [], Some ''a'', None, Some ''b'']"

definition demo_run :: "(string error + string option list) \<times> (nat, string) state" where
  "demo_run =
     run_commands demo_modules ''echo X'' (PySeq (map entry demo_batch)) demo_mode 0 True False
       ''ubuntu:18.04'' demo_state"

definition demo_failing_run ::
  "(string error + string option list) \<times> (nat, string) state" where
  "demo_failing_run =
     run_commands demo_modules ''echo X'' (PySeq (map entry [None, Some ''fail'', Some ''b'']))
       demo_mode 0 True False ''ubuntu:18.04'' demo_state"


section \<open>Properties\<close>

subsection \<open>make_python_command\<close>

lemma make_python_command_eq:
  "make_python_command target python_cmd = Inr (python_cmd @ '' '' @ target)"
proof -
  have "py_format ''%s'' [target] = (Inr target :: 'a error + string)"
    by simp
  then have "py_format '' %s'' [target] = (Inr ('' '' @ target) :: 'a error + string)"
    by simp
  then show ?thesis
    by (simp add: make_python_command_def)
qed

text \<open>
  Claim C8. \<^verbatim>\<open>make_python_command\<close> is a function of its two arguments alone (it takes no
  state and touches none): for every target and every interpreter command, the empty
  strings included, it returns the interpreter command, one space and the target, and it
  raises nothing.
\<close>

theorem make_python_command_returns:
  "make_python_command target python_cmd = Inr (python_cmd @ [CHR '' ''] @ target)"
  using make_python_command_eq [of target python_cmd] by simp

subsection \<open>The loop of run_commands\<close>

lemma for_cli_arg_step:
  "for_cli_arg mode archive ro v (map entry (a # batch)) cmd results st =
     (let line = (case a of None \<Rightarrow> cmd
                  | Some s \<Rightarrow> if s \<noteq> [] then archive @ '' -- '' @ s else cmd)
      in case call_run_script mode line ro v st of
           (Inl e, st') \<Rightarrow> (Inl (Raised e), st')
         | (Inr result, st') \<Rightarrow>
             for_cli_arg mode archive ro v (map entry batch) line (results @ [result]) st')"
  by (cases a) (auto simp: Let_def split: prod.splits sum.splits)

text \<open>
  On a batch of the documented type the loop either visits every entry and returns the
  outputs, or stops at the first dispatch that raises; the log holds the dispatches made,
  with the command lines of the composition rule.
\<close>

lemma for_cli_arg_typed:
  "for_cli_arg mode archive ro v (map entry batch) cmd results st = (r, st') \<Longrightarrow>
     (\<exists>raw. r = Inr (results @ raw) \<and> length raw = length batch \<and>
        calls st' = calls st @ logged ro v (spec_command_lines archive cmd batch) (map Inr raw))
   \<or> (\<exists>raw e. r = Inl (Raised e) \<and> length raw < length batch \<and>
        calls st' =
          calls st @ logged ro v (spec_command_lines archive cmd batch) (map Inr raw @ [Inl e]))"
proof (induction batch arbitrary: cmd results st)
  case Nil
  then show ?case by (auto simp: logged_def)
next
  case (Cons a batch)
  define line where
    "line = (case a of None \<Rightarrow> cmd | Some s \<Rightarrow> if s \<noteq> [] then archive @ '' -- '' @ s else cmd)"
  obtain out w where m: "mode line ro v (world st) = (out, w)"
    by (cases "mode line ro v (world st)")
  define st1 where "st1 = \<lparr>calls = calls st @ [RunScript line ro v out], world = w\<rparr>"
  have c: "call_run_script mode line ro v st = (out, st1)"
    by (simp add: call_run_script_def m st1_def)
  have sp: "spec_command_lines archive cmd (a # batch)
              = line # spec_command_lines archive line batch"
    by (simp add: line_def Let_def)
  show ?case
  proof (cases out)
    case (Inl e)
    with Cons.prems c have "r = Inl (Raised e)" "st' = st1"
      unfolding for_cli_arg_step by (auto simp: Let_def line_def[symmetric])
    then show ?thesis
      apply (intro disjI2)
      apply (rule exI[of _ "[]"])
      apply (rule exI[of _ e])
      apply (simp add: st1_def logged_def Inl sp del: spec_command_lines.simps)
      done
  next
    case (Inr x)
    with Cons.prems c
    have rec: "for_cli_arg mode archive ro v (map entry batch) line (results @ [x]) st1 = (r, st')"
      unfolding for_cli_arg_step by (auto simp: Let_def line_def[symmetric])
    from Cons.IH[OF rec] show ?thesis
    proof (elim disjE exE conjE)
      fix raw
      assume "r = Inr ((results @ [x]) @ raw)" "length raw = length batch"
        "calls st' = calls st1 @ logged ro v (spec_command_lines archive line batch) (map Inr raw)"
      then show ?thesis
        apply (intro disjI1)
        apply (rule exI[of _ "x # raw"])
        apply (simp add: st1_def logged_def Inr sp del: spec_command_lines.simps)
        done
    next
      fix raw e
      assume "r = Inl (Raised e)" "length raw < length batch"
        "calls st' = calls st1 @
           logged ro v (spec_command_lines archive line batch) (map Inr raw @ [Inl e])"
      then show ?thesis
        apply (intro disjI2)
        apply (rule exI[of _ "x # raw"])
        apply (rule exI[of _ e])
        apply (simp add: st1_def logged_def Inr sp del: spec_command_lines.simps)
        done
    qed
  qed
qed

text \<open>
  The three ways a call of \<open>run_commands\<close> on a batch of the documented type ends: the
  build raises; every dispatch returns; a dispatch raises.
\<close>

lemma run_commands_typed:
  assumes enter: "temp_archive_file md (world st) = (af, w1)"
    and build: "build_archive md af command False img mounts w1 = (bo, w2)"
    and res: "run_commands md command (PySeq (map entry batch)) mode mounts ro v img st = (r, st')"
  shows "(\<exists>e. bo = Inl e \<and> r = Inl (Raised e) \<and>
            calls st' = calls st @ [TempEnter af, BuildArchive af command False img mounts bo,
                                    TempExit af])
       \<or> (\<exists>archive raw. bo = Inr archive \<and> length raw = length batch \<and>
            r = Inr (if ro then map (strip_stdout md) raw else raw) \<and>
            calls st' = calls st @ [TempEnter af, BuildArchive af command False img mounts bo] @
                          logged ro v (spec_command_lines archive archive batch) (map Inr raw) @
                          [TempExit af])
       \<or> (\<exists>archive raw e. bo = Inr archive \<and> length raw < length batch \<and>
            r = Inl (Raised e) \<and>
            calls st' = calls st @ [TempEnter af, BuildArchive af command False img mounts bo] @
                          logged ro v (spec_command_lines archive archive batch)
                            (map Inr raw @ [Inl e]) @
                          [TempExit af])"
proof (cases bo)
  case (Inl e)
  with enter build res show ?thesis
    by (auto simp: run_commands_def with_temp_archive_file_def enter_temp_archive_file_def
        exit_temp_archive_file_def call_build_archive_def)
next
  case (Inr archive)
  define st2 :: "('a, 'b) state" where
    "st2 = \<lparr>calls = calls st @ [TempEnter af, BuildArchive af command False img mounts bo],
            world = w2\<rparr>"
  obtain r0 st3 where loop:
    "for_cli_arg mode archive ro v (map entry batch) archive [] st2 = (r0, st3)"
    by (cases "for_cli_arg mode archive ro v (map entry batch) archive [] st2")
  from enter build res Inr loop
  have r: "r = (case r0 of Inl e \<Rightarrow> Inl e
                | Inr results \<Rightarrow> Inr (if ro then map (strip_stdout md) results else results))"
    and st': "calls st' = calls st3 @ [TempExit af]"
    by (auto simp: run_commands_def with_temp_archive_file_def enter_temp_archive_file_def
        exit_temp_archive_file_def call_build_archive_def st2_def split: sum.splits)
  from for_cli_arg_typed[OF loop] show ?thesis
  proof (elim disjE exE conjE)
    fix raw
    assume "r0 = Inr ([] @ raw)" "length raw = length batch"
      "calls st3 = calls st2 @ logged ro v (spec_command_lines archive archive batch) (map Inr raw)"
    with r st' Inr show ?thesis
      by (intro disjI2 disjI1) (auto simp: st2_def)
  next
    fix raw e
    assume "r0 = Inl (Raised e)" "length raw < length batch"
      "calls st3 = calls st2 @
         logged ro v (spec_command_lines archive archive batch) (map Inr raw @ [Inl e])"
    with r st' Inr show ?thesis
      by (intro disjI2) (auto simp: st2_def)
  qed
qed

subsection \<open>Lists of calls\<close>

lemma new_calls_append: "calls st' = calls st @ new \<Longrightarrow> new_calls st st' = new"
  by (simp add: new_calls_def)

lemma run_script_cmds_append:
  "run_script_cmds (xs @ ys) = run_script_cmds xs @ run_script_cmds ys"
proof (induction xs)
  case Nil
  show ?case by simp
next
  case (Cons c xs)
  then show ?case by (cases c) simp_all
qed

lemma run_script_outputs_append:
  "run_script_outputs (xs @ ys) = run_script_outputs xs @ run_script_outputs ys"
proof (induction xs)
  case Nil
  show ?case by simp
next
  case (Cons c xs)
  show ?case
  proof (cases c)
    case (RunScript cmd ro v out)
    with Cons show ?thesis by (cases out) simp_all
  qed (use Cons in simp_all)
qed

lemma length_spec_command_lines [simp]:
  "length (spec_command_lines archive recent batch) = length batch"
  by (induction batch arbitrary: recent) (simp_all add: Let_def)

lemma logged_Nil [simp]: "logged ro v cmds [] = []"
  by (simp add: logged_def)

lemma logged_Cons [simp]:
  "logged ro v (c # cmds) (out # outs) = RunScript c ro v out # logged ro v cmds outs"
  by (simp add: logged_def)

lemma logged_Nil_cmds [simp]: "logged ro v [] outs = []"
  by (simp add: logged_def)

lemma run_script_cmds_logged:
  "run_script_cmds (logged ro v cmds outs) = take (length outs) cmds"
proof (induction cmds arbitrary: outs)
  case Nil
  show ?case by simp
next
  case (Cons c cmds)
  then show ?case by (cases outs) simp_all
qed

lemma run_script_outputs_logged:
  "length raw \<le> length cmds \<Longrightarrow> run_script_outputs (logged ro v cmds (map Inr raw)) = raw"
proof (induction cmds arbitrary: raw)
  case Nil
  then show ?case by simp
next
  case (Cons c cmds)
  then show ?case by (cases raw) simp_all
qed

lemma filter_build_logged [simp]: "filter is_build_archive (logged ro v cmds outs) = []"
  by (auto simp: logged_def filter_empty_conv)

lemma filter_run_logged [simp]:
  "filter is_run_script (logged ro v cmds outs) = logged ro v cmds outs"
  by (auto simp: logged_def filter_id_conv)

lemma length_logged [simp]: "length (logged ro v cmds outs) = min (length cmds) (length outs)"
  by (simp add: logged_def)

lemma logged_snoc:
  "length outs < length cmds \<Longrightarrow>
     logged ro v cmds (outs @ [out]) = logged ro v cmds outs @ [RunScript (cmds ! length outs) ro v out]"
proof (induction cmds arbitrary: outs)
  case Nil
  then show ?case by simp
next
  case (Cons c cmds)
  then show ?case by (cases outs) simp_all
qed

lemma no_failed_logged: "\<forall>z \<in> set (logged ro v cmds (map Inr raw)). \<not> is_failed_run z"
  by (auto simp: logged_def dest!: set_zip_rightD)

lemma unique_split:
  "xs @ x # ys = as @ a # bs \<Longrightarrow> P x \<Longrightarrow> \<forall>z\<in>set as. \<not> P z \<Longrightarrow> \<forall>z\<in>set bs. \<not> P z
     \<Longrightarrow> xs = as \<and> x = a \<and> ys = bs"
proof (induction xs arbitrary: as)
  case Nil
  then show ?case by (cases as) auto
next
  case (Cons x' xs)
  show ?case
  proof (cases as)
    case Nil
    with Cons.prems show ?thesis by auto
  next
    case (Cons a' as')
    with Cons.prems Cons.IH[of as'] show ?thesis by auto
  qed
qed



subsection \<open>run_commands\<close>

text \<open>
  Claim C2. For every command and every argument batch of length \<open>N\<close>, a call of
  \<open>run_commands\<close> makes exactly one call of the archive builder. When the call returns its
  results (neither the build nor a dispatch raised), it has made exactly \<open>N\<close> calls of
  \<^verbatim>\<open>run_script\<close>, one after the other, the \<open>k\<close>-th with the command line of the \<open>k\<close>-th entry;
  the results are \<open>N\<close>, in the order of the dispatches, and when output is captured each is
  the output of its dispatch passed once through \<open>strip_stdout\<close>.
\<close>

theorem run_commands_one_build_N_dispatches:
  assumes enter: "temp_archive_file md (world st) = (archive_file, w1)"
    and build: "build_archive md archive_file command False docker_image mounts w1 = (built, w2)"
    and res: "run_commands md command (PySeq (map entry batch)) mode mounts return_output verbose
                docker_image st = (r, st')"
  shows "filter is_build_archive (new_calls st st') =
           [BuildArchive archive_file command False docker_image mounts built] \<and>
         (\<forall>results. r = Inr results \<longrightarrow>
            length (filter is_run_script (new_calls st st')) = length batch \<and>
            (\<exists>archive. built = Inr archive \<and>
               run_script_cmds (new_calls st st') = spec_command_lines archive archive batch) \<and>
            length results = length batch \<and>
            results = (if return_output
                       then map (strip_stdout md) (run_script_outputs (new_calls st st'))
                       else run_script_outputs (new_calls st st')))"
proof -
  let ?B = "BuildArchive archive_file command False docker_image mounts built"
  from run_commands_typed[OF enter build res]
  consider
    (nobuild) e where "r = Inl (Raised e)"
      "calls st' = calls st @ [TempEnter archive_file, ?B, TempExit archive_file]"
  | (ok) archive raw where "built = Inr archive" "length raw = length batch"
      "r = Inr (if return_output then map (strip_stdout md) raw else raw)"
      "calls st' = calls st @ [TempEnter archive_file, ?B] @
         logged return_output verbose (spec_command_lines archive archive batch) (map Inr raw) @
         [TempExit archive_file]"
  | (fail) archive raw e where "r = Inl (Raised e)"
      "calls st' = calls st @ [TempEnter archive_file, ?B] @
         logged return_output verbose (spec_command_lines archive archive batch)
           (map Inr raw @ [Inl e]) @
         [TempExit archive_file]"
    by auto
  then show ?thesis
  proof cases
    case nobuild
    have "new_calls st st' = [TempEnter archive_file, ?B, TempExit archive_file]"
      by (rule new_calls_append) (simp add: nobuild(2))
    with nobuild(1) show ?thesis by simp
  next
    case ok
    have new: "new_calls st st' =
        [TempEnter archive_file, ?B] @
        logged return_output verbose (spec_command_lines archive archive batch) (map Inr raw) @
        [TempExit archive_file]"
      by (rule new_calls_append) (simp add: ok(4))
    have outs: "run_script_outputs (new_calls st st') = raw"
      unfolding new by (simp add: run_script_outputs_append run_script_outputs_logged ok(2))
    have cmds: "run_script_cmds (new_calls st st') = spec_command_lines archive archive batch"
      unfolding new by (simp add: run_script_cmds_append run_script_cmds_logged ok(2))
    have b: "filter is_build_archive (new_calls st st') = [?B]"
      unfolding new by simp
    have n: "length (filter is_run_script (new_calls st st')) = length batch"
      unfolding new by (simp add: ok(2))
    from b n cmds outs ok(1,2,3) show ?thesis by auto
  next
    case fail
    have "new_calls st st' =
        [TempEnter archive_file, ?B] @
        logged return_output verbose (spec_command_lines archive archive batch)
          (map Inr raw @ [Inl e]) @
        [TempExit archive_file]"
      by (rule new_calls_append) (simp add: fail(2))
    with fail(1) show ?thesis by simp
  qed
qed




text \<open>
  Claim C7. If, in a call of \<open>run_commands\<close>, a dispatch raised \<open>e\<close>, then the call raises
  that same \<open>e\<close> (no list of results is returned), the only call made after the failed
  dispatch is the exit of the context manager (no later entry is dispatched), and the
  failed dispatch belongs to an entry of the batch.
\<close>

theorem run_commands_failure_propagates:
  assumes res: "run_commands md command (PySeq (map entry batch)) mode mounts return_output verbose
                docker_image st = (r, st')"
    and failed: "new_calls st st' = before @ RunScript cmd ro v (Inl e) # after"
  shows "r = Inl (Raised e) \<and>
         after = [TempExit (fst (temp_archive_file md (world st)))] \<and>
         length (run_script_cmds before) < length batch"
proof -
  obtain af w1 where enter: "temp_archive_file md (world st) = (af, w1)"
    by (cases "temp_archive_file md (world st)")
  obtain bo w2 where build: "build_archive md af command False docker_image mounts w1 = (bo, w2)"
    by (cases "build_archive md af command False docker_image mounts w1")
  let ?F = "RunScript cmd ro v (Inl e)"
  have F: "is_failed_run ?F" by simp
  from run_commands_typed[OF enter build res]
  consider
    (nobuild) "calls st' = calls st @
        [TempEnter af, BuildArchive af command False docker_image mounts bo, TempExit af]"
  | (ok) archive raw where "length raw = length batch"
      "calls st' = calls st @ [TempEnter af, BuildArchive af command False docker_image mounts bo] @
         logged return_output verbose (spec_command_lines archive archive batch) (map Inr raw) @
         [TempExit af]"
  | (fail) archive raw e' where "length raw < length batch" "r = Inl (Raised e')"
      "calls st' = calls st @ [TempEnter af, BuildArchive af command False docker_image mounts bo] @
         logged return_output verbose (spec_command_lines archive archive batch)
           (map Inr raw @ [Inl e']) @
         [TempExit af]"
    by auto
  then show ?thesis
  proof cases
    case nobuild
    then have "new_calls st st' =
        [TempEnter af, BuildArchive af command False docker_image mounts bo, TempExit af]"
      by (intro new_calls_append) simp
    with failed have "?F \<in> set [TempEnter af, BuildArchive af command False docker_image mounts bo,
                                 TempExit af]"
      by (metis in_set_conv_decomp)
    then show ?thesis by simp
  next
    case ok
    let ?L = "logged return_output verbose (spec_command_lines archive archive batch) (map Inr raw)"
    from ok have "new_calls st st' =
        [TempEnter af, BuildArchive af command False docker_image mounts bo] @ ?L @ [TempExit af]"
      by (intro new_calls_append) simp
    with failed have "?F \<in> set ([TempEnter af, BuildArchive af command False docker_image mounts bo]
                                  @ ?L @ [TempExit af])"
      by (metis in_set_conv_decomp)
    then have "?F \<in> set ?L" by simp
    with no_failed_logged[of return_output verbose _ raw] F show ?thesis by blast
  next
    case fail
    let ?cmds = "spec_command_lines archive archive batch"
    let ?L = "logged return_output verbose ?cmds (map Inr raw)"
    let ?P = "[TempEnter af, BuildArchive af command False docker_image mounts bo] @ ?L"
    let ?F' = "RunScript (?cmds ! length raw) return_output verbose (Inl e')"
    have sn: "logged return_output verbose ?cmds (map Inr raw @ [Inl e']) = ?L @ [?F']"
      using logged_snoc[of "map Inr raw" ?cmds return_output verbose "Inl e'"] fail(1) by simp
    from fail(3) have "new_calls st st' = ?P @ ?F' # [TempExit af]"
      by (intro new_calls_append) (simp add: sn)
    with failed have eq: "before @ ?F # after = ?P @ ?F' # [TempExit af]" by simp
    have noP: "\<forall>z\<in>set ?P. \<not> is_failed_run z"
      using no_failed_logged[of return_output verbose ?cmds raw] by auto
    have noE: "\<forall>z\<in>set [TempExit af]. \<not> is_failed_run z" by simp
    from unique_split[OF eq F noP noE]
    have b: "before = ?P" and f: "?F = ?F'" and a: "after = [TempExit af]" by blast+
    from f have "e = e'" by simp
    moreover have "length (run_script_cmds before) < length batch"
      unfolding b using fail(1) by (simp add: run_script_cmds_append run_script_cmds_logged)
    ultimately show ?thesis using fail(2) a enter by simp
  qed
qed

subsection \<open>run_command, and the archive file of both\<close>

lemma run_command_typed:
  assumes enter: "temp_archive_file md (world st) = (af, w1)"
    and build: "build_archive md af command False img mounts w1 = (Inr archive, w2)"
    and run: "mode (case cli of None \<Rightarrow> archive
                     | Some s \<Rightarrow> if s = [] then archive else archive @ '' -- '' @ s)
                ro v w2 = (out, w3)"
  shows "run_command md command (entry cli) mode mounts ro v img st =
           (case out of
              Inl e \<Rightarrow> Inl (Raised e)
            | Inr result \<Rightarrow> Inr (if ro then strip_stdout md result else result),
            \<lparr>calls = calls st @
               [TempEnter af, BuildArchive af command False img mounts (Inr archive),
                RunScript (case cli of None \<Rightarrow> archive
                           | Some s \<Rightarrow> if s = [] then archive else archive @ '' -- '' @ s)
                  ro v out,
                TempExit af],
             world = w3\<lparr>files := files w3 - {af}\<rparr>\<rparr>)"
proof (cases cli)
  case None
  with enter build run show ?thesis
    by (cases out)
      (simp_all add: run_command_def with_temp_archive_file_def enter_temp_archive_file_def
        exit_temp_archive_file_def call_build_archive_def call_run_script_def)
next
  case (Some s)
  with enter build run show ?thesis
    by (cases out; cases "s = []")
      (simp_all add: run_command_def with_temp_archive_file_def enter_temp_archive_file_def
        exit_temp_archive_file_def call_build_archive_def call_run_script_def)
qed

lemma run_command_build_raises:
  assumes enter: "temp_archive_file md (world st) = (af, w1)"
    and build: "build_archive md af command False img mounts w1 = (Inl e, w2)"
  shows "run_command md command cli_args mode mounts ro v img st =
           (Inl (Raised e),
            \<lparr>calls = calls st @
               [TempEnter af, BuildArchive af command False img mounts (Inl e), TempExit af],
             world = w2\<lparr>files := files w2 - {af}\<rparr>\<rparr>)"
  using enter build
  by (simp add: run_command_def with_temp_archive_file_def enter_temp_archive_file_def
      exit_temp_archive_file_def call_build_archive_def)

text \<open>
  Claim C3. For every command, a call of \<open>run_command\<close> makes exactly one call of the archive
  builder. When the build returns the archive, the call makes, between entering and leaving
  the context manager, that one call of the builder and then exactly one call of
  \<^verbatim>\<open>run_script\<close>; its command line is the archive path alone when \<^verbatim>\<open>cli_args\<close> is absent or
  empty, and the archive path, \<^verbatim>\<open>" -- "\<close> and \<^verbatim>\<open>cli_args\<close> when it is a non-empty string.
\<close>

theorem run_command_one_build_one_dispatch:
  assumes enter: "temp_archive_file md (world st) = (archive_file, w1)"
    and build: "build_archive md archive_file command False docker_image mounts w1 = (built, w2)"
    and res: "run_command md command (entry cli_args) mode mounts return_output verbose
                docker_image st = (r, st')"
  shows "filter is_build_archive (new_calls st st') =
           [BuildArchive archive_file command False docker_image mounts built] \<and>
         (\<forall>archive. built = Inr archive \<longrightarrow>
            length (filter is_run_script (new_calls st st')) = 1 \<and>
            (\<exists>out. new_calls st st' =
               [TempEnter archive_file,
                BuildArchive archive_file command False docker_image mounts (Inr archive),
                RunScript (case cli_args of
                             None \<Rightarrow> archive
                           | Some s \<Rightarrow> if s = [] then archive else archive @ '' -- '' @ s)
                  return_output verbose out,
                TempExit archive_file]))"
proof (cases built)
  case (Inl e)
  from run_command_build_raises[OF enter build[unfolded Inl]] res
  have "calls st' = calls st @
          [TempEnter archive_file,
           BuildArchive archive_file command False docker_image mounts (Inl e),
           TempExit archive_file]"
    by auto
  then have "new_calls st st' =
          [TempEnter archive_file,
           BuildArchive archive_file command False docker_image mounts (Inl e),
           TempExit archive_file]"
    by (rule new_calls_append)
  with Inl show ?thesis by simp
next
  case (Inr archive)
  let ?line = "case cli_args of None \<Rightarrow> archive
               | Some s \<Rightarrow> if s = [] then archive else archive @ '' -- '' @ s"
  obtain out w3 where run: "mode ?line return_output verbose w2 = (out, w3)"
    by (cases "mode ?line return_output verbose w2")
  from run_command_typed[where mode = mode and cli = cli_args, OF enter build[unfolded Inr] run]
    res
  have "calls st' = calls st @
          [TempEnter archive_file,
           BuildArchive archive_file command False docker_image mounts (Inr archive),
           RunScript ?line return_output verbose out, TempExit archive_file]"
    by auto
  then have "new_calls st st' =
          [TempEnter archive_file,
           BuildArchive archive_file command False docker_image mounts (Inr archive),
           RunScript ?line return_output verbose out, TempExit archive_file]"
    by (rule new_calls_append)
  with Inr show ?thesis by simp
qed


lemma with_temp_archive_file_exit:
  "\<exists>st2. snd (with_temp_archive_file md body st)
            = exit_temp_archive_file (fst (temp_archive_file md (world st))) st2"
  by (auto simp: with_temp_archive_file_def enter_temp_archive_file_def split: prod.splits)

lemma run_command_ends_with_exit:
  "\<exists>st2. snd (run_command md command cli_args mode mounts ro v img st)
            = exit_temp_archive_file (fst (temp_archive_file md (world st))) st2"
proof -
  let ?body = "\<lambda>archive_file st1.
                 case call_build_archive md archive_file command False img mounts st1 of
                   (Inl e, st2) \<Rightarrow> (Inl (Raised e), st2)
                 | (Inr archive, st2) \<Rightarrow>
                     (case (if truthy cli_args then str_add (archive @ '' -- '') cli_args
                            else Inr archive) of
                        Inl e \<Rightarrow> (Inl e, st2)
                      | Inr cmd \<Rightarrow>
                          (case call_run_script mode cmd ro v st2 of
                             (Inl e, st3) \<Rightarrow> (Inl (Raised e), st3)
                           | (Inr result, st3) \<Rightarrow> (Inr result, st3)))"
  have "snd (run_command md command cli_args mode mounts ro v img st)
          = snd (with_temp_archive_file md ?body st)"
    by (simp add: run_command_def split: prod.splits sum.splits)
  with with_temp_archive_file_exit[of md ?body st] show ?thesis by simp
qed

lemma run_commands_ends_with_exit:
  "\<exists>st2. snd (run_commands md command cli_args mode mounts ro v img st)
            = exit_temp_archive_file (fst (temp_archive_file md (world st))) st2"
proof -
  let ?body = "\<lambda>archive_file st1.
                 case call_build_archive md archive_file command False img mounts st1 of
                   (Inl e, st2) \<Rightarrow> (Inl (Raised e), st2)
                 | (Inr archive, st2) \<Rightarrow>
                     (case py_iter cli_args of
                        Inl e \<Rightarrow> (Inl e, st2)
                      | Inr entries \<Rightarrow>
                          for_cli_arg mode archive ro v entries archive [] st2)"
  have "snd (run_commands md command cli_args mode mounts ro v img st)
          = snd (with_temp_archive_file md ?body st)"
    by (simp add: run_commands_def split: prod.splits sum.splits)
  with with_temp_archive_file_exit[of md ?body st] show ?thesis by simp
qed

text \<open>
  Claim C6. Whatever the arguments and whatever the builder and the launch mode do (return
  or raise), after \<open>run_command\<close> and after \<open>run_commands\<close> the path the context manager
  yielded is not on the file system, and leaving the context manager is the last call made.
\<close>

theorem temp_archive_file_released:
  "fst (temp_archive_file md (world st))
     \<notin> files (world (snd (run_command md command cli_args mode mounts ro v img st))) \<and>
   last (calls (snd (run_command md command cli_args mode mounts ro v img st)))
     = TempExit (fst (temp_archive_file md (world st))) \<and>
   fst (temp_archive_file md (world st))
     \<notin> files (world (snd (run_commands md command batch mode mounts ro v img st))) \<and>
   last (calls (snd (run_commands md command batch mode mounts ro v img st)))
     = TempExit (fst (temp_archive_file md (world st)))"
  using run_command_ends_with_exit[of md command cli_args mode mounts ro v img st]
    run_commands_ends_with_exit[of md command batch mode mounts ro v img st]
  by (auto simp: exit_temp_archive_file_def)

subsection \<open>The runs on the concrete collaborators\<close>

lemmas demo_defs = run_commands_def run_command_def with_temp_archive_file_def
  enter_temp_archive_file_def exit_temp_archive_file_def call_build_archive_def
  call_run_script_def demo_modules_def demo_mode_def demo_state_def

lemma demo_enter:
  "temp_archive_file demo_modules (world demo_state) =
     (''/tmp/a.dar'',
      \<lparr>files = {''/tmp/a.dar''},
       heap = [[\<lparr>local_dir = ''/data'', mount_point = ''data''\<rparr>]], ext = 0\<rparr>)"
  by (simp add: demo_modules_def demo_state_def)

lemma demo_build:
  "build_archive demo_modules ''/tmp/a.dar'' ''echo X'' False ''ubuntu:18.04'' 0
     \<lparr>files = {''/tmp/a.dar''},
      heap = [[\<lparr>local_dir = ''/data'', mount_point = ''data''\<rparr>]], ext = 0\<rparr> =
     (Inr ''/tmp/a.dar'', \<lparr>files = {''/tmp/a.dar''}, heap = [[]], ext = 0\<rparr>)"
  by (simp add: demo_modules_def)

lemma demo_run_value:
  "demo_run =
     (Inr [Some ''/tmp/a.dar'', Some ''/tmp/a.dar'', Some ''/tmp/a.dar -- a'',
           Some ''/tmp/a.dar -- a'', Some ''/tmp/a.dar -- b''],
      \<lparr>calls =
         [TempEnter ''/tmp/a.dar'',
          BuildArchive ''/tmp/a.dar'' ''echo X'' False ''ubuntu:18.04'' 0 (Inr ''/tmp/a.dar''),
          RunScript ''/tmp/a.dar'' True False (Inr (Some ''/tmp/a.dar#end'')),
          RunScript ''/tmp/a.dar'' True False (Inr (Some ''/tmp/a.dar#end'')),
          RunScript ''/tmp/a.dar -- a'' True False (Inr (Some ''/tmp/a.dar -- a#end'')),
          RunScript ''/tmp/a.dar -- a'' True False (Inr (Some ''/tmp/a.dar -- a#end'')),
          RunScript ''/tmp/a.dar -- b'' True False (Inr (Some ''/tmp/a.dar -- b#end'')),
          TempExit ''/tmp/a.dar''],
       world = \<lparr>files = {}, heap = [[]], ext = 5\<rparr>\<rparr>)"
  by (simp add: demo_run_def demo_batch_def demo_defs)

lemma demo_failing_run_value:
  "demo_failing_run =
     (Inl (Raised ''exit status 1''),
      \<lparr>calls =
         [TempEnter ''/tmp/a.dar'',
          BuildArchive ''/tmp/a.dar'' ''echo X'' False ''ubuntu:18.04'' 0 (Inr ''/tmp/a.dar''),
          RunScript ''/tmp/a.dar'' True False (Inr (Some ''/tmp/a.dar#end'')),
          RunScript ''/tmp/a.dar -- fail'' True False (Inl ''exit status 1''),
          TempExit ''/tmp/a.dar''],
       world = \<lparr>files = {}, heap = [[]], ext = 1\<rparr>\<rparr>)"
  by (simp add: demo_failing_run_def demo_defs)

lemma demo_run_eq:
  "run_commands demo_modules ''echo X'' (PySeq (map entry demo_batch)) demo_mode 0 True False
     ''ubuntu:18.04'' demo_state = (fst demo_run, snd demo_run)"
  by (simp add: demo_run_def)


theorem run_commands_one_build_N_dispatches_witness:
  "fst demo_run = Inr [Some ''/tmp/a.dar'', Some ''/tmp/a.dar'', Some ''/tmp/a.dar -- a'',
                       Some ''/tmp/a.dar -- a'', Some ''/tmp/a.dar -- b''] \<and>
   filter is_build_archive (new_calls demo_state (snd demo_run)) =
     [BuildArchive ''/tmp/a.dar'' ''echo X'' False ''ubuntu:18.04'' 0 (Inr ''/tmp/a.dar'')] \<and>
   length (filter is_run_script (new_calls demo_state (snd demo_run))) = 5 \<and>
   run_script_cmds (new_calls demo_state (snd demo_run)) =
     [''/tmp/a.dar'', ''/tmp/a.dar'', ''/tmp/a.dar -- a'', ''/tmp/a.dar -- a'',
      ''/tmp/a.dar -- b''] \<and>
   fst demo_run =
     Inr (map (strip_stdout demo_modules) (run_script_outputs (new_calls demo_state (snd demo_run))))"
proof -
  have r: "fst demo_run = Inr [Some ''/tmp/a.dar'', Some ''/tmp/a.dar'', Some ''/tmp/a.dar -- a'',
                     Some ''/tmp/a.dar -- a'', Some ''/tmp/a.dar -- b'']"
    by (simp add: demo_run_value)
  from run_commands_one_build_N_dispatches[OF demo_enter demo_build demo_run_eq] r
  show ?thesis by (simp add: demo_batch_def Let_def)
qed



theorem run_commands_failure_propagates_witness:
  "new_calls demo_state (snd demo_failing_run) =
     [TempEnter ''/tmp/a.dar'',
      BuildArchive ''/tmp/a.dar'' ''echo X'' False ''ubuntu:18.04'' 0 (Inr ''/tmp/a.dar''),
      RunScript ''/tmp/a.dar'' True False (Inr (Some ''/tmp/a.dar#end''))] @
     RunScript ''/tmp/a.dar -- fail'' True False (Inl ''exit status 1'') #
     [TempExit ''/tmp/a.dar''] \<and>
   fst demo_failing_run = Inl (Raised ''exit status 1'')"
proof -
  have run: "run_commands demo_modules ''echo X''
               (PySeq (map entry [None, Some ''fail'', Some ''b''])) demo_mode 0 True False
               ''ubuntu:18.04'' demo_state = (fst demo_failing_run, snd demo_failing_run)"
    by (simp add: demo_failing_run_def)
  have failed: "new_calls demo_state (snd demo_failing_run) =
     [TempEnter ''/tmp/a.dar'',
      BuildArchive ''/tmp/a.dar'' ''echo X'' False ''ubuntu:18.04'' 0 (Inr ''/tmp/a.dar''),
      RunScript ''/tmp/a.dar'' True False (Inr (Some ''/tmp/a.dar#end''))] @
     RunScript ''/tmp/a.dar -- fail'' True False (Inl ''exit status 1'') #
     [TempExit ''/tmp/a.dar'']"
    by (simp add: demo_failing_run_value new_calls_def demo_state_def)
  from run_commands_failure_propagates[OF run failed] failed
  show ?thesis by simp
qed

theorem run_command_one_build_one_dispatch_witness:
  "new_calls demo_state
     (snd (run_command demo_modules ''echo X'' (entry (Some ''a'')) demo_mode 0 True False
             ''ubuntu:18.04'' demo_state)) =
     [TempEnter ''/tmp/a.dar'',
      BuildArchive ''/tmp/a.dar'' ''echo X'' False ''ubuntu:18.04'' 0 (Inr ''/tmp/a.dar''),
      RunScript ''/tmp/a.dar -- a'' True False (Inr (Some ''/tmp/a.dar -- a#end'')),
      TempExit ''/tmp/a.dar'']"
proof -
  have run: "run_command demo_modules ''echo X'' (entry (Some ''a'')) demo_mode 0 True False
               ''ubuntu:18.04'' demo_state
             = (fst (run_command demo_modules ''echo X'' (entry (Some ''a'')) demo_mode 0 True
                       False ''ubuntu:18.04'' demo_state),
                snd (run_command demo_modules ''echo X'' (entry (Some ''a'')) demo_mode 0 True
                       False ''ubuntu:18.04'' demo_state))"
    by simp
  have out: "fst (demo_mode ''/tmp/a.dar -- a'' True False w) = Inr (Some ''/tmp/a.dar -- a#end'')"
    for w :: "nat world"
    by (simp add: demo_mode_def)
  from run_command_one_build_one_dispatch[OF demo_enter demo_build run]
  obtain out where new: "new_calls demo_state
     (snd (run_command demo_modules ''echo X'' (entry (Some ''a'')) demo_mode 0 True False
             ''ubuntu:18.04'' demo_state)) =
     [TempEnter ''/tmp/a.dar'',
      BuildArchive ''/tmp/a.dar'' ''echo X'' False ''ubuntu:18.04'' 0 (Inr ''/tmp/a.dar''),
      RunScript ''/tmp/a.dar -- a'' True False out,
      TempExit ''/tmp/a.dar'']"
    by auto
  moreover have "new_calls demo_state
     (snd (run_command demo_modules ''echo X'' (entry (Some ''a'')) demo_mode 0 True False
             ''ubuntu:18.04'' demo_state)) ! 2
       = RunScript ''/tmp/a.dar -- a'' True False (Inr (Some ''/tmp/a.dar -- a#end''))"
    by (simp add: demo_defs new_calls_def)
  ultimately show ?thesis by simp
qed



theorem temp_archive_file_released_witness:
  "''/tmp/a.dar'' \<notin> files (world (snd demo_failing_run)) \<and>
   last (calls (snd demo_failing_run)) = TempExit ''/tmp/a.dar'' \<and>
   fst demo_failing_run = Inl (Raised ''exit status 1'')"
proof -
  have "fst demo_failing_run = Inl (Raised ''exit status 1'')"
    by (simp add: demo_failing_run_value)
  with temp_archive_file_released[of demo_modules demo_state "''echo X''" PyNone demo_mode 0 True
      False "''ubuntu:18.04''" "PySeq (map entry [None, Some ''fail'', Some ''b''])"]
  show ?thesis
    by (simp add: demo_failing_run_def demo_enter)
qed

subsection \<open>Paths of the form directory, separator, file name\<close>

text \<open>
  For a path made of a directory \<open>d\<close> that does not end in the separator and a file name \<open>f\<close>
  without separator, \<open>dirname\<close> and \<open>basename\<close> give back \<open>d\<close> and \<open>f\<close>.
\<close>

lemma rfind_sep_succ_split:
  "CHR ''/'' \<notin> set f \<Longrightarrow> rfind_sep_succ (d @ CHR ''/'' # f) = Suc (length d)"
proof -
  assume f: "CHR ''/'' \<notin> set f"
  have "takeWhile (\<lambda>c. c \<noteq> CHR ''/'') (rev f @ CHR ''/'' # rev d) = rev f"
    using f by (subst takeWhile_append2) auto
  then show ?thesis by (simp add: rfind_sep_succ_def)
qed

lemma rfind_sep_succ_plain: "CHR ''/'' \<notin> set f \<Longrightarrow> rfind_sep_succ f = 0"
proof -
  assume f: "CHR ''/'' \<notin> set f"
  then have "takeWhile (\<lambda>c. c \<noteq> CHR ''/'') (rev f) = rev f"
    by (auto simp: takeWhile_eq_all_conv)
  then show ?thesis
    unfolding rfind_sep_succ_def by (simp only: length_rev diff_self_eq_0)
qed

lemma basename_split: "CHR ''/'' \<notin> set f \<Longrightarrow> basename (d @ ''/'' @ f) = f"
  by (simp add: basename_def rfind_sep_succ_split)

lemma dirname_split:
  assumes "CHR ''/'' \<notin> set f" "d \<noteq> []" "last d \<noteq> CHR ''/''"
  shows "dirname (d @ ''/'' @ f) = d"
proof -
  have head: "take (rfind_sep_succ (d @ ''/'' @ f)) (d @ ''/'' @ f) = d @ ''/''"
    by (simp add: rfind_sep_succ_split[OF assms(1)])
  have "last d \<in> set d" using assms(2) by simp
  then have ne: "d @ ''/'' \<noteq> replicate (length (d @ ''/'')) (CHR ''/'')"
    using assms(3) by (metis UnCI in_set_replicate set_append)
  have "dropWhile (\<lambda>c. c = CHR ''/'') (rev d) = rev d"
    using assms(2,3) by (cases "rev d") (auto simp: last_rev[symmetric] simp del: last_rev)
  then have "rstrip_sep (d @ ''/'') = d"
    by (simp add: rstrip_sep_def)
  with head ne show ?thesis
    by (simp add: dirname_def Let_def)
qed

lemma join_plain:
  "a \<noteq> [] \<Longrightarrow> last a \<noteq> CHR ''/'' \<Longrightarrow> take 1 b \<noteq> ''/'' \<Longrightarrow> join a b = a @ ''/'' @ b"
  by (simp add: join_def)

subsection \<open>run_python\<close>

lemma apfst_case_sum:
  "(case p of (Inl e, s) \<Rightarrow> (Inl e, s) | (Inr x, s) \<Rightarrow> (Inr (f x), s)) = apfst (map_sum id f) p"
  by (cases p; cases "fst p") auto

lemma run_python_eq:
  "run_python md target target_mount_dir mounts docker_image run_multiple kw st =
     (let target_mount = \<lparr>local_dir = dirname target,
                           mount_point = join target_mount_dir (basename (dirname target))\<rparr>;
          command = ''python '' @ join (mount_point target_mount) (basename target);
          mounts' = length (heap (world st));
          st1 = \<lparr>calls = calls st,
                 world = (world st)\<lparr>heap := heap (world st) @
                                             [list_of (world st) mounts @ [target_mount]]\<rparr>\<rparr>;
          mode = (case kw_mode kw of None \<Rightarrow> LocalMode md | Some m \<Rightarrow> m);
          return_output = (case kw_return_output kw of None \<Rightarrow> False | Some b \<Rightarrow> b);
          verbose = (case kw_verbose kw of None \<Rightarrow> False | Some b \<Rightarrow> b)
      in if run_multiple
         then apfst (map_sum id Outputs)
                (run_commands md command
                   (case kw_cli_args kw of None \<Rightarrow> PySeq [PyNone] | Some v \<Rightarrow> v)
                   mode mounts' return_output verbose docker_image st1)
         else apfst (map_sum id Output)
                (run_command md command
                   (case kw_cli_args kw of None \<Rightarrow> PyNone | Some v \<Rightarrow> v)
                   mode mounts' return_output verbose docker_image st1))"
  by (simp add: run_python_def Let_def new_list_def MountLocal_def make_python_command_eq
      apfst_case_sum)

text \<open>
  Claim C5. For every script path \<open>target\<close>, \<open>run_python\<close> makes a mount that binds the
  directory of the script, \<open>dirname target\<close>, to \<open>target_mount_dir\<close> joined with the base name
  of that directory; it passes on a new list holding the caller's mounts followed by this
  mount; the command is \<^verbatim>\<open>python\<close>, a space, and the mount point joined with the base name of
  the script; and it returns what \<open>run_commands\<close> returns on these when \<open>run_multiple\<close> is
  set, what \<open>run_command\<close> returns otherwise. Keywords that are absent take the defaults of
  the function called.
\<close>

theorem run_python_mount_and_command:
  "run_python md target target_mount_dir mounts docker_image run_multiple kw st =
     (let target_mount = \<lparr>local_dir = dirname target,
                           mount_point = join target_mount_dir (basename (dirname target))\<rparr>;
          command = ''python '' @ join (mount_point target_mount) (basename target);
          mounts' = length (heap (world st));
          st1 = \<lparr>calls = calls st,
                 world = (world st)\<lparr>heap := heap (world st) @
                                             [list_of (world st) mounts @ [target_mount]]\<rparr>\<rparr>;
          mode = (case kw_mode kw of None \<Rightarrow> LocalMode md | Some m \<Rightarrow> m);
          return_output = (case kw_return_output kw of None \<Rightarrow> False | Some b \<Rightarrow> b);
          verbose = (case kw_verbose kw of None \<Rightarrow> False | Some b \<Rightarrow> b)
      in if run_multiple
         then apfst (map_sum id Outputs)
                (run_commands md command
                   (case kw_cli_args kw of None \<Rightarrow> PySeq [PyNone] | Some v \<Rightarrow> v)
                   mode mounts' return_output verbose docker_image st1)
         else apfst (map_sum id Output)
                (run_command md command
                   (case kw_cli_args kw of None \<Rightarrow> PyNone | Some v \<Rightarrow> v)
                   mode mounts' return_output verbose docker_image st1))"
  by (rule run_python_eq)

theorem run_python_mount_and_command_witness:
  "run_python demo_modules ''/home/user/proj/hello.py'' ''target'' 0 ''python:3'' True
     demo_kwargs demo_state =
   apfst (map_sum id Outputs)
     (run_commands demo_modules ''python target/proj/hello.py'' (PySeq [PyNone]) demo_mode 1
        True False ''python:3''
        \<lparr>calls = [],
         world = \<lparr>files = {},
                  heap = [[\<lparr>local_dir = ''/data'', mount_point = ''data''\<rparr>],
                          [\<lparr>local_dir = ''/data'', mount_point = ''data''\<rparr>,
                           \<lparr>local_dir = ''/home/user/proj'', mount_point = ''target/proj''\<rparr>]],
                  ext = 0\<rparr>\<rparr>)"
  using run_python_mount_and_command[of demo_modules "''/home/user/proj/hello.py''" "''target''" 0
      "''python:3''" True demo_kwargs demo_state]
  by (simp add: Let_def demo_kwargs_def demo_state_def dirname_def basename_def join_def
      rfind_sep_succ_def rstrip_sep_def list_of_def)

subsection \<open>The caller's list of mounts\<close>

lemma keeps_lists_refl [simp]: "keeps_lists A w w"
  by (simp add: keeps_lists_def)

lemma keeps_lists_trans:
  "keeps_lists A w w' \<Longrightarrow> keeps_lists B w' w'' \<Longrightarrow> keeps_lists (A \<union> B) w w''"
  by (auto simp: keeps_lists_def)

lemma keeps_lists_empty_trans:
  "keeps_lists {} w w' \<Longrightarrow> keeps_lists {} w' w'' \<Longrightarrow> keeps_lists {} w w''"
  using keeps_lists_trans[of "{}" w w' "{}" w''] by simp

lemma call_run_script_keeps:
  "confined_mode mode \<Longrightarrow>
     keeps_lists {} (world st) (world (snd (call_run_script mode cmd ro v st)))"
  unfolding confined_mode_def call_run_script_def
  by (auto simp: split_beta dest: spec[of _ cmd] spec[of _ ro] spec[of _ v] spec[of _ "world st"])

lemma for_cli_arg_keeps:
  "confined_mode mode \<Longrightarrow>
     keeps_lists {} (world st)
       (world (snd (for_cli_arg mode archive ro v entries cmd results st)))"
proof (induction entries arbitrary: cmd results st)
  case Nil
  show ?case by simp
next
  case (Cons cli_arg rest)
  show ?case
  proof (cases "if truthy cli_arg then str_add (archive @ '' -- '') cli_arg
                else (Inr cmd :: 'b error + string)")
    case (Inl e)
    then show ?thesis by simp
  next
    case (Inr cmd')
    obtain out st1 where c: "call_run_script mode cmd' ro v st = (out, st1)"
      by (cases "call_run_script mode cmd' ro v st")
    from call_run_script_keeps[OF Cons.prems, of st cmd' ro v] c
    have k1: "keeps_lists {} (world st) (world st1)" by simp
    show ?thesis
    proof (cases out)
      case (Inl e)
      with Inr c k1 show ?thesis by simp
    next
      case (Inr result)
      from Cons.IH[OF Cons.prems, of st1 cmd' "results @ [result]"]
      have "keeps_lists {} (world st1)
              (world (snd (for_cli_arg mode archive ro v rest cmd' (results @ [result]) st1)))" .
      with k1 have "keeps_lists {} (world st)
              (world (snd (for_cli_arg mode archive ro v rest cmd' (results @ [result]) st1)))"
        by (rule keeps_lists_empty_trans)
      with \<open>(if truthy cli_arg then str_add (archive @ '' -- '') cli_arg else Inr cmd) = Inr cmd'\<close>
        c Inr show ?thesis by simp
    qed
  qed
qed


lemma keeps_lists_files [simp]:
  "keeps_lists A w (w'\<lparr>files := F\<rparr>) = keeps_lists A w w'"
  by (simp add: keeps_lists_def)

lemma call_build_archive_keeps:
  "confined_builder md \<Longrightarrow>
     keeps_lists {mounts} (world st)
       (world (snd (call_build_archive md af payload vb img mounts st)))"
  unfolding confined_builder_def call_build_archive_def
  by (auto simp: split_beta)

lemma with_temp_archive_file_keeps:
  assumes b: "confined_builder md"
    and body: "\<And>af st1. keeps_lists A (world st1) (world (snd (body af st1)))"
  shows "keeps_lists A (world st) (world (snd (with_temp_archive_file md body st)))"
proof -
  obtain af st1 where e: "enter_temp_archive_file md st = (af, st1)"
    by (cases "enter_temp_archive_file md st")
  from b have "keeps_lists {} (world st) (snd (temp_archive_file md (world st)))"
    by (simp add: confined_builder_def)
  with e have k1: "keeps_lists {} (world st) (world st1)"
    by (auto simp: enter_temp_archive_file_def split_beta)
  obtain r st2 where bd: "body af st1 = (r, st2)"
    by (cases "body af st1")
  from body[of st1 af] bd have k2: "keeps_lists A (world st1) (world st2)" by simp
  from keeps_lists_trans[OF k1 k2] have "keeps_lists A (world st) (world st2)" by simp
  with e bd show ?thesis
    by (simp add: with_temp_archive_file_def exit_temp_archive_file_def)
qed

lemma run_command_keeps:
  assumes b: "confined_builder md" and m: "confined_mode mode"
  shows "keeps_lists {mounts} (world st)
           (world (snd (run_command md command cli_args mode mounts ro v img st)))"
proof -
  let ?body = "\<lambda>archive_file st1.
                 case call_build_archive md archive_file command False img mounts st1 of
                   (Inl e, st2) \<Rightarrow> (Inl (Raised e), st2)
                 | (Inr archive, st2) \<Rightarrow>
                     (case (if truthy cli_args then str_add (archive @ '' -- '') cli_args
                            else Inr archive) of
                        Inl e \<Rightarrow> (Inl e, st2)
                      | Inr cmd \<Rightarrow>
                          (case call_run_script mode cmd ro v st2 of
                             (Inl e, st3) \<Rightarrow> (Inl (Raised e), st3)
                           | (Inr result, st3) \<Rightarrow> (Inr result, st3)))"
  have eq: "snd (run_command md command cli_args mode mounts ro v img st)
          = snd (with_temp_archive_file md ?body st)"
    by (simp add: run_command_def split: prod.splits sum.splits)
  have "keeps_lists {mounts} (world st1) (world (snd (?body af st1)))" for af st1
  proof -
    obtain bo st2 where c: "call_build_archive md af command False img mounts st1 = (bo, st2)"
      by (cases "call_build_archive md af command False img mounts st1")
    from call_build_archive_keeps[OF b, of mounts st1 af command False img] c
    have k1: "keeps_lists {mounts} (world st1) (world st2)" by simp
    have k2: "keeps_lists {} (world st2) (world (snd (call_run_script mode cmd ro v st2)))" for cmd
      by (rule call_run_script_keeps[OF m])
    have k: "keeps_lists {mounts} (world st1) (world (snd (call_run_script mode cmd ro v st2)))"
      for cmd
      using keeps_lists_trans[OF k1 k2[of cmd]] by simp
    have k': "keeps_lists {mounts} (world st1) (world st3)"
      if "call_run_script mode cmd ro v st2 = (out, st3)" for cmd out st3
      using k[of cmd] that by simp
    show ?thesis
      using c k1 by (auto split: sum.splits prod.splits intro: k')
  qed
  from with_temp_archive_file_keeps[OF b, of "{mounts}" ?body st, OF this] eq
  show ?thesis by simp
qed

lemma run_commands_keeps:
  assumes b: "confined_builder md" and m: "confined_mode mode"
  shows "keeps_lists {mounts} (world st)
           (world (snd (run_commands md command cli_args mode mounts ro v img st)))"
proof -
  let ?body = "\<lambda>archive_file st1.
                 case call_build_archive md archive_file command False img mounts st1 of
                   (Inl e, st2) \<Rightarrow> (Inl (Raised e), st2)
                 | (Inr archive, st2) \<Rightarrow>
                     (case py_iter cli_args of
                        Inl e \<Rightarrow> (Inl e, st2)
                      | Inr entries \<Rightarrow>
                          for_cli_arg mode archive ro v entries archive [] st2)"
  have eq: "snd (run_commands md command cli_args mode mounts ro v img st)
          = snd (with_temp_archive_file md ?body st)"
    by (simp add: run_commands_def split: prod.splits sum.splits)
  have "keeps_lists {mounts} (world st1) (world (snd (?body af st1)))" for af st1
  proof -
    obtain bo st2 where c: "call_build_archive md af command False img mounts st1 = (bo, st2)"
      by (cases "call_build_archive md af command False img mounts st1")
    from call_build_archive_keeps[OF b, of mounts st1 af command False img] c
    have k1: "keeps_lists {mounts} (world st1) (world st2)" by simp
    have k2: "keeps_lists {} (world st2)
                (world (snd (for_cli_arg mode archive ro v entries archive [] st2)))"
      for archive entries
      by (rule for_cli_arg_keeps[OF m])
    have k: "keeps_lists {mounts} (world st1)
                (world (snd (for_cli_arg mode archive ro v entries archive [] st2)))"
      for archive entries
      using keeps_lists_trans[OF k1 k2[of archive entries]] by simp
    show ?thesis
      using c k1 k by (auto split: sum.splits prod.splits)
  qed
  from with_temp_archive_file_keeps[OF b, of "{mounts}" ?body st, OF this] eq
  show ?thesis by simp
qed

text \<open>
  Claim C9. \<open>run_python\<close> does not change the list of mounts its caller passed: it passes on
  a list object of its own. With collaborators that change no list object but one they
  were handed (the builder may well change the list it receives), the caller's list holds
  after the call what it held before, whatever the other arguments are.
\<close>

theorem run_python_keeps_callers_mounts:
  assumes valid: "mounts < length (heap (world st))"
    and builder: "confined_builder md"
    and mode: "confined_mode (case kw_mode kw of None \<Rightarrow> LocalMode md | Some m \<Rightarrow> m)"
  shows "list_of (world (snd (run_python md target target_mount_dir mounts docker_image
                                run_multiple kw st))) mounts
           = list_of (world st) mounts"
proof -
  let ?st' = "snd (run_python md target target_mount_dir mounts docker_image run_multiple kw st)"
  let ?m = "\<lparr>local_dir = dirname target,
             mount_point = join target_mount_dir (basename (dirname target))\<rparr>"
  let ?st1 = "\<lparr>calls = calls st,
               world = (world st)\<lparr>heap := heap (world st) @ [list_of (world st) mounts @ [?m]]\<rparr>\<rparr>"
  let ?fresh = "length (heap (world st))"
  have k0: "keeps_lists {} (world st) (world ?st1)"
    by (simp add: keeps_lists_def nth_append)
  let ?mode = "case kw_mode kw of None \<Rightarrow> LocalMode md | Some m \<Rightarrow> m"
  have many: "keeps_lists {?fresh} (world ?st1)
                (world (snd (run_commands md command cli_args ?mode ?fresh ro v docker_image ?st1)))"
    for command cli_args ro v
    by (rule run_commands_keeps[OF builder mode])
  have one: "keeps_lists {?fresh} (world ?st1)
                (world (snd (run_command md command cli_args ?mode ?fresh ro v docker_image ?st1)))"
    for command cli_args ro v
    by (rule run_command_keeps[OF builder mode])
  have k1: "keeps_lists {?fresh} (world ?st1) (world ?st')"
  proof (cases run_multiple)
    case True
    then show ?thesis
      unfolding run_python_eq Let_def using many by simp
  next
    case False
    then show ?thesis
      unfolding run_python_eq Let_def using one by simp
  qed
  from valid k0 k1 show ?thesis
    by (auto simp: keeps_lists_def list_of_def)
qed

lemma demo_confined_builder: "confined_builder demo_modules"
  by (simp add: confined_builder_def demo_modules_def keeps_lists_def)

lemma demo_confined_mode: "confined_mode demo_mode"
  by (simp add: confined_mode_def demo_mode_def keeps_lists_def)

theorem run_python_keeps_callers_mounts_witness:
  "list_of (world (snd (run_python demo_modules ''/home/user/proj/hello.py'' ''target'' 0
                          ''python:3'' True demo_kwargs demo_state))) 0
     = [\<lparr>local_dir = ''/data'', mount_point = ''data''\<rparr>] \<and>
   list_of (world (snd (run_python demo_modules ''/home/user/proj/hello.py'' ''target'' 0
                          ''python:3'' True demo_kwargs demo_state))) 1
     = []"
proof -
  have valid: "0 < length (heap (world demo_state))"
    by (simp add: demo_state_def)
  have mode: "confined_mode (case kw_mode demo_kwargs of None \<Rightarrow> LocalMode demo_modules
                             | Some m \<Rightarrow> m)"
    by (simp add: demo_kwargs_def demo_confined_mode)
  have built: "list_of (world (snd (run_python demo_modules ''/home/user/proj/hello.py''
                          ''target'' 0 ''python:3'' True demo_kwargs demo_state))) 1 = []"
    by (simp add: run_python_def Let_def new_list_def make_python_command_eq demo_kwargs_def
        list_of_def demo_defs)
  from run_python_keeps_callers_mounts[OF valid demo_confined_builder mode,
      of "''/home/user/proj/hello.py''" "''target''" "''python:3''" True] built
  show ?thesis
    by (simp add: list_of_def demo_state_def)
qed

end
